theory Spec2Isabelle
  imports Main
begin

section \<open>Go values\<close>

text \<open>
  Go strings are byte strings, modelled as \<open>string\<close>. A Go slice is a list; a nil
  slice and an empty slice are both \<open>[]\<close> (the code below only appends to slices, ranges
  over them and takes their length, which do not tell the two apart). A Go map that may
  be nil is an optional association list: \<open>None\<close> is the nil map.
\<close>

type_synonym gomap = "(string \<times> string) list option"

text \<open>\<open>fmt.Sprintf("%d", i)\<close>: the decimal rendering of a Go int.\<close>

fun decimal :: "nat \<Rightarrow> string" where
  "decimal n =
     (if n < 10 then [''0123456789'' ! n]
      else decimal (n div 10) @ [''0123456789'' ! (n mod 10)])"

declare decimal.simps [simp del]

definition Sprintf_d :: "int \<Rightarrow> string" where
  "Sprintf_d i = (if i < 0 then ''-'' @ decimal (nat (- i)) else decimal (nat i))"

section \<open>The manifest model (pkg/model/dev.go)\<close>

record Volume =
  vol_SubPath :: string
  vol_MountPath :: string

record Capabilities =
  cap_Add :: "string list"
  cap_Drop :: "string list"

record SecurityContext =
  RunAsUser :: "int option"
  RunAsGroup :: "int option"
  FSGroup :: "int option"
  Capabilities :: "Capabilities option"

record EnvVar =
  env_Name :: string
  env_Value :: string

record Forward =
  fwd_Local :: int
  fwd_Remote :: int

record RemoteForward =
  rfwd_Remote :: int
  rfwd_Local :: int

record ResourceRequirements =
  Limits :: "(string \<times> string) list"
  Requests :: "(string \<times> string) list"

text \<open>
  A \<open>*Dev\<close> is a reference: \<open>None\<close> is the nil pointer, \<open>Some a\<close> the object at
  address \<open>a\<close> of the heap. \<open>Services\<close> is a slice of such pointers, so the struct is not
  recursive as a value.
\<close>

type_synonym ref = "nat option"

record Dev =
  Name :: string
  Labels :: gomap
  Annotations :: gomap
  Namespace :: string
  Container :: string
  Image' :: string
  ImagePullPolicy :: string
  Environment :: "EnvVar list"
  Command :: "string list"
  WorkDir :: string
  MountPath :: string
  SubPath :: string
  Volumes :: "Volume list"
  SecurityContext :: "SecurityContext option"
  Forward :: "Forward list"
  RemoteForward :: "RemoteForward list"
  RemotePort :: int
  Resources :: ResourceRequirements
  DevPath :: string
  DevDir :: string
  Services :: "ref list"

text \<open>The zero value of the struct: what \<open>Dev{}\<close> is in Go.\<close>

definition Dev_zero :: Dev where
  "Dev_zero =
     \<lparr>Name = [], Labels = None, Annotations = None, Namespace = [], Container = [],
      Image' = [], ImagePullPolicy = [], Environment = [], Command = [], WorkDir = [],
      MountPath = [], SubPath = [], Volumes = [], SecurityContext = None, Forward = [],
      RemoteForward = [], RemotePort = 0, Resources = \<lparr>Limits = [], Requests = []\<rparr>,
      DevPath = [], DevDir = [], Services = []\<rparr>"

type_synonym heap = "nat \<Rightarrow> Dev option"

definition deref :: "heap \<Rightarrow> ref \<Rightarrow> Dev option" where
  "deref h r = (case r of None \<Rightarrow> None | Some a \<Rightarrow> h a)"

text \<open>
  The errors of the package. \<open>NilDereference\<close> stands for the run-time panic of a
  field access through a nil pointer; the others are the errors the functions return.
\<close>

datatype error =
    NilDereference
  | InvalidManifestList string
  | InvalidManifest string
  | NameAndLabels string
  | NamespaceMismatch string string

definition PullAlways :: string where
  "PullAlways = ''Always''"

subsection \<open>UpdateNamespace\<close>

text \<open>
  The method mutates its receiver; the model returns the receiver as the method leaves it,
  with the error it returns (\<open>None\<close> is Go's nil error).
\<close>

definition UpdateNamespace :: "Dev \<Rightarrow> string \<Rightarrow> Dev \<times> error option" where
  "UpdateNamespace dev namespace =
     (if namespace = '''' then (dev, None)
      else if Namespace dev \<noteq> '''' \<and> Namespace dev \<noteq> namespace
        then (dev, Some (NamespaceMismatch (Namespace dev) namespace))
      else (dev\<lparr>Namespace := namespace\<rparr>, None))"

subsection \<open>Read and setDefaults\<close>

text \<open>\<open>len(m)\<close> of a map that may be nil: the number of its keys.\<close>

definition maplen :: "gomap \<Rightarrow> nat" where
  "maplen m = (case m of None \<Rightarrow> 0 | Some kvs \<Rightarrow> length (remdups (map fst kvs)))"

definition HasPrefix :: "string \<Rightarrow> string \<Rightarrow> bool" where
  "HasPrefix s p = (take (length p) s = p)"

text \<open>
  The \<open>if\<close> statements of \<open>setDefaults\<close>, one definition each, in the order of the
  source. The function runs the first six on the manifest itself and the last five again
  on every service.
\<close>

definition default_Command :: "Dev \<Rightarrow> Dev" where
  "default_Command dev = (if length (Command dev) = 0 then dev\<lparr>Command := [''sh'']\<rparr> else dev)"

definition default_paths :: "Dev \<Rightarrow> Dev" where
  "default_paths dev =
     (if MountPath dev = [] \<and> WorkDir dev = []
      then dev\<lparr>MountPath := ''/okteto'', WorkDir := ''/okteto''\<rparr> else dev)"

definition default_ImagePullPolicy :: "Dev \<Rightarrow> Dev" where
  "default_ImagePullPolicy dev =
     (if ImagePullPolicy dev = [] then dev\<lparr>ImagePullPolicy := PullAlways\<rparr> else dev)"

definition default_MountPath :: "Dev \<Rightarrow> Dev" where
  "default_MountPath dev =
     (if WorkDir dev \<noteq> [] \<and> MountPath dev = [] then dev\<lparr>MountPath := WorkDir dev\<rparr> else dev)"

definition default_Labels :: "Dev \<Rightarrow> Dev" where
  "default_Labels dev = (if Labels dev = None then dev\<lparr>Labels := Some []\<rparr> else dev)"

definition default_Annotations :: "Dev \<Rightarrow> Dev" where
  "default_Annotations dev =
     (if Annotations dev = None then dev\<lparr>Annotations := Some []\<rparr> else dev)"

definition setDefaults_dev :: "Dev \<Rightarrow> Dev" where
  "setDefaults_dev dev =
     default_Annotations (default_Labels (default_MountPath (default_ImagePullPolicy
       (default_paths (default_Command dev)))))"

text \<open>
  The defaults of the loop body for one service, up to the check of name and labels.
\<close>

definition setDefaults_svc :: "Dev \<Rightarrow> Dev" where
  "setDefaults_svc s =
     default_Annotations (default_Labels (default_MountPath (default_ImagePullPolicy
       (default_paths s))))"

text \<open>
  One iteration of \<open>for _, s := range dev.Services\<close>: \<open>s\<close> is a pointer, the writes go
  to the heap. The iteration ends the function with an error when the service has both a
  name and labels (the defaults written so far stay in the heap), and with a panic when
  \<open>s\<close> is nil.
\<close>

definition setDefaults_step :: "heap \<Rightarrow> ref \<Rightarrow> heap \<times> error option" where
  "setDefaults_step h sp =
     (case sp of
        None \<Rightarrow> (h, Some NilDereference)
      | Some a \<Rightarrow>
          (case h a of
             None \<Rightarrow> (h, Some NilDereference)
           | Some s0 \<Rightarrow>
               (let s = setDefaults_svc s0 in
                if Name s \<noteq> [] \<and> maplen (Labels s) > 0
                then (h(a \<mapsto> s), Some (NameAndLabels (Name s)))
                else (h(a \<mapsto> s\<lparr>Namespace := [], Forward := [], RemoteForward := [],
                                  Volumes := [], Services := []\<rparr>), None))))"

fun setDefaults_loop :: "heap \<Rightarrow> ref list \<Rightarrow> heap \<times> error option" where
  "setDefaults_loop h [] = (h, None)"
| "setDefaults_loop h (sp # sps) =
     (case setDefaults_step h sp of
        (h', Some e) \<Rightarrow> (h', Some e)
      | (h', None) \<Rightarrow> setDefaults_loop h' sps)"

text \<open>
  \<open>setDefaults\<close> on the manifest at \<open>devp\<close>. The loop ranges over the slice
  \<open>dev.Services\<close> as it is when the loop starts.
\<close>

definition setDefaults :: "heap \<Rightarrow> ref \<Rightarrow> heap \<times> error option" where
  "setDefaults h devp =
     (case devp of
        None \<Rightarrow> (h, Some NilDereference)
      | Some a \<Rightarrow>
          (case h a of
             None \<Rightarrow> (h, Some NilDereference)
           | Some dev0 \<Rightarrow>
               (let dev = setDefaults_dev dev0
                in setDefaults_loop (h(a \<mapsto> dev)) (Services dev))))"

text \<open>The struct literal \<open>Read\<close> starts from.\<close>

definition Read_new :: Dev where
  "Read_new =
     Dev_zero\<lparr>Environment := [], Command := [], Forward := [], Volumes := [],
       Resources := \<lparr>Limits = [], Requests = []\<rparr>, Services := []\<rparr>"

text \<open>
  \<open>Read\<close>. Two functions of other packages are parameters: \<open>UnmarshalStrict bytes h a\<close>
  is \<open>yaml.UnmarshalStrict(bytes, dev)\<close> for the object \<open>dev\<close> at address \<open>a\<close> (it fails
  with a message, or returns the heap with the decoded manifest at \<open>a\<close> and the objects of
  its services), and \<open>ExpandEnv\<close> is \<open>os.ExpandEnv\<close> in the environment of the process.
  The wording of an invalid manifest is rebuilt from the decoder's message, which the
  error value carries as it came. The fresh object is at address 0.
\<close>

definition Read ::
  "(string \<Rightarrow> heap \<Rightarrow> nat \<Rightarrow> string + heap) \<Rightarrow> (string \<Rightarrow> string) \<Rightarrow> string
    \<Rightarrow> error + heap \<times> ref" where
  "Read UnmarshalStrict ExpandEnv bytes =
     (case UnmarshalStrict bytes (Map.empty(0 \<mapsto> Read_new)) 0 of
        Inl err \<Rightarrow>
          (if HasPrefix err ''yaml: unmarshal errors:''
           then Inl (InvalidManifestList err) else Inl (InvalidManifest err))
      | Inr h \<Rightarrow>
          (case h 0 of
             None \<Rightarrow> Inl NilDereference
           | Some dev \<Rightarrow>
               (let h1 = (if length (Image' dev) > 0
                          then h(0 \<mapsto> dev\<lparr>Image' := ExpandEnv (Image' dev)\<rparr>) else h)
                in case setDefaults h1 (Some 0) of
                     (h2, Some e) \<Rightarrow> Inl e
                   | (h2, None) \<Rightarrow> Inr (h2, Some 0))))"

subsection \<open>Translation rules\<close>

text \<open>
  \<open>TranslationRule\<close> and \<open>VolumeMount\<close> are declared in another file of the package; the
  records have the fields \<open>ToTranslationRule\<close> assigns.
\<close>

record VolumeMount =
  vm_Name :: string
  vm_MountPath :: string
  vm_SubPath :: string

record TranslationRule =
  tr_Marker :: string
  tr_Container :: string
  tr_Image :: string
  tr_ImagePullPolicy :: string
  tr_Environment :: "EnvVar list"
  tr_Command :: "string list"
  tr_Args :: "string list"
  tr_WorkDir :: string
  tr_Healthchecks :: bool
  tr_Volumes :: "VolumeMount list"
  tr_SecurityContext :: "SecurityContext option"
  tr_Resources :: ResourceRequirements

definition OktetoVolumeName :: string where
  "OktetoVolumeName = ''okteto''"

definition oktetoSyncthingMountPath :: string where
  "oktetoSyncthingMountPath = ''/var/syncthing''"

definition oktetoMarkerPathVariable :: string where
  "oktetoMarkerPathVariable = ''OKTETO_MARKER_PATH''"

text \<open>\<open>Join\<close> is \<open>path.Join\<close> of the standard library, a parameter.\<close>

definition fullSubPath :: "(string list \<Rightarrow> string) \<Rightarrow> Dev \<Rightarrow> int \<Rightarrow> string \<Rightarrow> string" where
  "fullSubPath Join dev i subPath =
     (if subPath = [] then Join [Name dev, ''data-'' @ Sprintf_d i]
      else Join [Name dev, ''data-0'', subPath])"

definition syncthingSubPath :: "(string list \<Rightarrow> string) \<Rightarrow> Dev \<Rightarrow> string" where
  "syncthingSubPath Join dev = Join [Name dev, ''syncthing'']"

text \<open>The receiver may be nil.\<close>

definition RemoteModeEnabled :: "Dev option \<Rightarrow> bool" where
  "RemoteModeEnabled devo =
     (case devo of
        None \<Rightarrow> False
      | Some dev \<Rightarrow> (if RemotePort dev > 0 then True else length (RemoteForward dev) > 0))"

text \<open>The loop \<open>for i, v := range dev.Volumes\<close> of \<open>ToTranslationRule\<close>, from index \<open>i\<close>.\<close>

fun volumeMounts ::
  "(string list \<Rightarrow> string) \<Rightarrow> Dev \<Rightarrow> int \<Rightarrow> Volume list \<Rightarrow> VolumeMount list \<Rightarrow> VolumeMount list" where
  "volumeMounts Join main i [] acc = acc"
| "volumeMounts Join main i (v # vs) acc =
     volumeMounts Join main (i + 1) vs
       (acc @ [\<lparr>vm_Name = OktetoVolumeName, vm_MountPath = vol_MountPath v,
                vm_SubPath = fullSubPath Join main (i + 1) (vol_SubPath v)\<rparr>])"

text \<open>
  \<open>dev.ToTranslationRule(main)\<close>, receiver and argument as pointers: \<open>main == dev\<close>
  compares the pointers.
\<close>

definition ToTranslationRule ::
  "(string list \<Rightarrow> string) \<Rightarrow> heap \<Rightarrow> ref \<Rightarrow> ref \<Rightarrow> error + TranslationRule" where
  "ToTranslationRule Join h devp mainp =
     (case deref h devp of
        None \<Rightarrow> Inl NilDereference
      | Some dev \<Rightarrow>
          (case deref h mainp of
             None \<Rightarrow> Inl NilDereference
           | Some main \<Rightarrow>
               (let rule0 =
                      \<lparr>tr_Marker = [],
                       tr_Container = Container dev,
                       tr_Image = Image' dev,
                       tr_ImagePullPolicy = ImagePullPolicy dev,
                       tr_Environment = Environment dev,
                       tr_Command = [],
                       tr_Args = [],
                       tr_WorkDir = WorkDir dev,
                       tr_Healthchecks = False,
                       tr_Volumes =
                         [\<lparr>vm_Name = OktetoVolumeName, vm_MountPath = MountPath dev,
                           vm_SubPath = fullSubPath Join main 0 (SubPath dev)\<rparr>],
                       tr_SecurityContext = SecurityContext dev,
                       tr_Resources = Resources dev\<rparr>;
                    rule =
                      (if mainp = devp
                       then rule0
                         \<lparr>tr_Marker := DevPath dev,
                          tr_Environment := tr_Environment rule0 @
                            [\<lparr>env_Name = oktetoMarkerPathVariable,
                              env_Value = Join [MountPath dev, DevPath dev]\<rparr>],
                          tr_Volumes := tr_Volumes rule0 @
                            [\<lparr>vm_Name = OktetoVolumeName,
                              vm_MountPath = oktetoSyncthingMountPath,
                              vm_SubPath = syncthingSubPath Join dev\<rparr>],
                          tr_Healthchecks := False,
                          tr_Command := [''/var/okteto/bin/start.sh''],
                          tr_Args := (if RemoteModeEnabled (deref h mainp) then [''-r''] else [])\<rparr>
                       else (if length (Command dev) > 0
                             then rule0\<lparr>tr_Healthchecks := True, tr_Command := Command dev,
                                    tr_Args := []\<rparr>
                             else rule0\<lparr>tr_Healthchecks := True\<rparr>))
                in Inr (rule\<lparr>tr_Volumes :=
                           volumeMounts Join main 0 (Volumes dev) (tr_Volumes rule)\<rparr>))))"

subsection \<open>Volume names\<close>

definition GetVolumeTemplateName :: "Dev \<Rightarrow> int \<Rightarrow> string" where
  "GetVolumeTemplateName dev i = ''pvc-'' @ Sprintf_d i"

section \<open>Volume claim templates (package k8s, translate)\<close>

text \<open>
  Of \<open>apiv1.PersistentVolumeClaim\<close> the fields the function sets; every other field has
  its zero value. A \<open>resource.Quantity\<close> is kept as the literal it was parsed from.
\<close>

record PersistentVolumeClaim =
  pvc_Name :: string
  pvc_AccessModes :: "string list"
  pvc_Requests :: "(string \<times> string) list"

definition ReadWriteOnce :: string where
  "ReadWriteOnce = ''ReadWriteOnce''"

definition volumeClaim :: "Dev \<Rightarrow> int \<Rightarrow> PersistentVolumeClaim" where
  "volumeClaim dev i =
     \<lparr>pvc_Name = GetVolumeTemplateName dev i,
      pvc_AccessModes = [ReadWriteOnce],
      pvc_Requests = [(''storage'', ''10Gi'')]\<rparr>"

text \<open>The loop \<open>for i := 0; i <= len(dev.Volumes); i++\<close>, with the slice built so far.\<close>

function claimLoop :: "Dev \<Rightarrow> int \<Rightarrow> PersistentVolumeClaim list \<Rightarrow> PersistentVolumeClaim list" where
  "claimLoop dev i result =
     (if i \<le> int (length (Volumes dev))
      then claimLoop dev (i + 1) (result @ [volumeClaim dev i])
      else result)"
  by pat_completeness auto
termination
  by (relation "measure (\<lambda>(dev, i, result). nat (int (length (Volumes dev)) + 1 - i))") auto

declare claimLoop.simps [simp del]

definition translateVolumeClaimTemplates :: "Dev \<Rightarrow> PersistentVolumeClaim list" where
  "translateVolumeClaimTemplates dev = claimLoop dev 0 []"

section \<open>The up command (package cmd)\<close>

subsection \<open>WaitUntilExitOrInterrupt\<close>

text \<open>
  The function is a loop around one \<open>select\<close> over three channels. An event is one
  receive the \<open>select\<close> makes: the error the command goroutine sends on \<open>up.Running\<close>
  (\<open>None\<close> is nil), an error on \<open>up.ErrChan\<close>, or the signal on \<open>up.Disconnect\<close>. The
  argument is the sequence of receives in the order the \<open>select\<close> takes them; when it is
  used up no channel is ready any more and the function stays blocked.
\<close>

datatype event = Running "string option" | ErrChan string | Disconnect

text \<open>The sentinel errors of package errors that the function returns.\<close>

datatype up_error = ErrCommandFailed | ErrLostConnection

datatype logline = Println | Info string | Yellow string

datatype wait_result = Blocked | Returns "up_error option"

fun WaitUntilExitOrInterrupt :: "event list \<Rightarrow> logline list \<Rightarrow> wait_result \<times> logline list" where
  "WaitUntilExitOrInterrupt [] out = (Blocked, out)"
| "WaitUntilExitOrInterrupt (Running err # evs) out =
     (case err of
        Some e \<Rightarrow>
          (Returns (Some ErrCommandFailed),
           out @ [Println, Info (''Command execution error: '' @ e)])
      | None \<Rightarrow>
          (Returns None,
           out @ [Println, Info ''Command finished execution without any errors'']))"
| "WaitUntilExitOrInterrupt (ErrChan err # evs) out =
     WaitUntilExitOrInterrupt evs (out @ [Yellow err])"
| "WaitUntilExitOrInterrupt (Disconnect # evs) out = (Returns (Some ErrLostConnection), out)"

subsection \<open>The forwards of devMode\<close>

text \<open>
  Modelled from the spec: \<open>PortForwardManager.Add\<close> is in package forward, which is not
  among the sources. The spec has \<open>add(local, remote)\<close> fail if \<open>local\<close> is already
  registered. The manager is the list of the registered pairs, in the order of
  registration.
\<close>

type_synonym ports = "(int \<times> int) list"

datatype forward_error = AlreadyRegistered int

definition Add :: "ports \<Rightarrow> int \<Rightarrow> int \<Rightarrow> forward_error + ports" where
  "Add ports local remote =
     (if local \<in> set (map fst ports) then Inl (AlreadyRegistered local)
      else Inr (ports @ [(local, remote)]))"

text \<open>The ports of the synchroniser in the pod (package syncthing).\<close>

definition ClusterPort :: int where
  "ClusterPort = 22000"

definition GUIPort :: int where
  "GUIPort = 8384"

text \<open>The loop \<open>for _, f := range up.Dev.Forward\<close> of \<open>devMode\<close>.\<close>

fun addForwards :: "ports \<Rightarrow> Forward list \<Rightarrow> forward_error + ports" where
  "addForwards ports [] = Inr ports"
| "addForwards ports (f # fs) =
     (case Add ports (fwd_Local f) (fwd_Remote f) of
        Inl err \<Rightarrow> Inl err
      | Inr ports' \<Rightarrow> addForwards ports' fs)"

text \<open>
  The part of \<open>devMode\<close> from \<open>forward.NewPortForwardManager\<close> to the last \<open>Add\<close>: the
  forwards of the manifest, then the two ports of the synchroniser; \<open>syRemotePort\<close> and
  \<open>syRemoteGUIPort\<close> are \<open>up.Sy.RemotePort\<close> and \<open>up.Sy.RemoteGUIPort\<close>.
\<close>

definition devMode_forwards :: "Forward list \<Rightarrow> int \<Rightarrow> int \<Rightarrow> forward_error + ports" where
  "devMode_forwards forwards syRemotePort syRemoteGUIPort =
     (case addForwards [] forwards of
        Inl err \<Rightarrow> Inl err
      | Inr ports \<Rightarrow>
          (case Add ports syRemotePort ClusterPort of
             Inl err \<Rightarrow> Inl err
           | Inr ports' \<Rightarrow> Add ports' syRemoteGUIPort GUIPort))"

subsection \<open>The writes to the state file\<close>

text \<open>
  The states \<open>updateStateFile\<close> is called with. The constants are declared in a file of
  package cmd that is not among the sources; the names are those of the calls.
\<close>

datatype upState =
  activating | starting | attaching | pulling | startingSync | synchronizing | ready | failed

text \<open>
  One cycle of the loop of \<open>Activate\<close> writes the state from two goroutines. The main line
  is \<open>devMode\<close>, then \<open>sync\<close>, then the goroutine of \<open>runCommand\<close> and, when an error
  reaches \<open>up.Exit\<close>, \<open>RunUp\<close>: each of these starts after the one before it has finished
  (a \<open>go\<close> statement or a channel lies between them), so their writes are one sequence of
  actions. The other goroutine is the reporter that \<open>devMode\<close> starts before
  \<open>MonitorDevPod\<close>; it shares the unbuffered channel \<open>reporter\<close> with the main line.
\<close>

datatype action = Write upState | Go | Send string | Close

text \<open>
  What the calls into other packages do in one cycle: whether the checks before
  \<open>starting\<close> pass, whether the calls from \<open>syncthing.New\<close> to \<open>pods.GetDevPod\<close> succeed, the
  messages \<open>MonitorDevPod\<close> sends on \<open>reporter\<close>, whether \<open>MonitorDevPod\<close> and the forwards
  succeed, whether \<open>startLocalSyncthing\<close> and \<open>synchronizeFiles\<close> succeed, whether the pod
  still exists after a failure of \<open>sync\<close>, and whether the wait after the command ends in
  an error that is sent to \<open>up.Exit\<close>.
\<close>

record cycle =
  checks_ok :: bool
  deploy_ok :: bool
  messages :: "string list"
  attach_ok :: bool
  startSync_ok :: bool
  synchronize_ok :: bool
  pod_exists :: bool
  exit_error :: bool

text \<open>
  The actions of \<open>devMode\<close>: the two writes, the \<open>go\<close> statement of the reporter, the sends
  of \<open>MonitorDevPod\<close> and the deferred \<open>close(reporter)\<close>, which runs at every return after
  the \<open>defer\<close> statement.
\<close>

definition devMode_actions :: "cycle \<Rightarrow> action list" where
  "devMode_actions r =
     Write activating #
     (if checks_ok r
      then Write starting #
        (if deploy_ok r then Go # map Send (messages r) @ [Close] else [])
      else [])"

definition devMode_ok :: "cycle \<Rightarrow> bool" where
  "devMode_ok r = (checks_ok r \<and> deploy_ok r \<and> attach_ok r)"

text \<open>
  A failure of \<open>sync\<close> ends the cycle without a write when the pod is gone (the loop
  reconnects), and with \<open>failed\<close> otherwise.
\<close>

definition sync_failed :: "cycle \<Rightarrow> action list" where
  "sync_failed r = (if pod_exists r then [Write failed] else [])"

definition cycle_actions :: "cycle \<Rightarrow> action list" where
  "cycle_actions r =
     devMode_actions r @
     (if \<not> devMode_ok r then [Write failed]
      else Write startingSync #
        (if \<not> startSync_ok r then sync_failed r
         else Write synchronizing #
           (if \<not> synchronize_ok r then sync_failed r
            else Write ready # (if exit_error r then [Write failed] else []))))"

text \<open>
  The reporter goroutine: not yet started, started and about to write \<open>attaching\<close>,
  waiting in \<open>message = <-reporter\<close>, holding a message it has received, or returned.
\<close>

datatype reporter = NotStarted | Started | Receiving | Got string | Returned

text \<open>
  A configuration is the rest of the main line, the reporter, whether \<open>reporter\<close> is
  closed, and the states written so far. A step is one action of one goroutine; the send
  and the receive on the unbuffered channel are one step, and a receive on the closed
  channel gives the empty message.
\<close>

type_synonym config = "action list \<times> reporter \<times> bool \<times> upState list"

inductive step :: "config \<Rightarrow> config \<Rightarrow> bool" where
  main_write: "step (Write s # as, rep, closed, file) (as, rep, closed, file @ [s])"
| main_go: "step (Go # as, NotStarted, closed, file) (as, Started, closed, file)"
| main_send: "step (Send m # as, Receiving, False, file) (as, Got m, False, file)"
| main_close: "step (Close # as, rep, False, file) (as, rep, True, file)"
| reporter_attaching: "step (as, Started, closed, file) (as, Receiving, closed, file @ [attaching])"
| reporter_closed: "step (as, Receiving, True, file) (as, Got [], True, file)"
| reporter_return: "step (as, Got [], closed, file) (as, Returned, closed, file)"
| reporter_pulling:
    "m \<noteq> [] \<Longrightarrow> HasPrefix m ''Pulling'' \<Longrightarrow>
     step (as, Got m, closed, file) (as, Receiving, closed, file @ [pulling])"
| reporter_other:
    "m \<noteq> [] \<Longrightarrow> \<not> HasPrefix m ''Pulling'' \<Longrightarrow>
     step (as, Got m, closed, file) (as, Receiving, closed, file)"

inductive reaches :: "config \<Rightarrow> config \<Rightarrow> bool" where
  here: "reaches c c"
| further: "reaches c c' \<Longrightarrow> step c' c'' \<Longrightarrow> reaches c c''"

text \<open>The states a sequence of actions writes.\<close>

fun writes :: "action list \<Rightarrow> upState list" where
  "writes [] = []"
| "writes (Write s # as) = s # writes as"
| "writes (a # as) = writes as"

text \<open>
  The order of the states of one cycle: a sequence of writes is in order when the states
  other than \<open>failed\<close> never go back.
\<close>

fun rank :: "upState \<Rightarrow> nat" where
  "rank activating = 0"
| "rank starting = 1"
| "rank attaching = 2"
| "rank pulling = 3"
| "rank startingSync = 4"
| "rank synchronizing = 5"
| "rank ready = 6"
| "rank failed = 7"

definition in_order :: "upState list \<Rightarrow> bool" where
  "in_order file = sorted (map rank (filter (\<lambda>s. s \<noteq> failed) file))"

section \<open>The swap manifest and its deployment (model/dev.go)\<close>

text \<open>
  The first manifest model of the repository: a \<open>Dev\<close> with a name, the deployment to
  swap and the folder to mount. Its type \<open>service\<close> is declared in a file that is not among
  the sources and \<open>Deployment\<close> does not read it; the field is left out.
\<close>

record deployment =
  dep_File :: string
  dep_Container :: string
  dep_Image :: string
  dep_Command :: "string list"
  dep_Args :: "string list"

record swap =
  swap_Deployment :: deployment

record mount =
  Source :: string
  Target :: string

record Dev_swap =
  swap_Name :: string
  Swap :: swap
  Mount :: mount

text \<open>
  Of the Kubernetes API types, the fields \<open>Deployment\<close> reads or writes. The fields it
  passes on untouched are kept by name in \<open>rest\<close>, which is empty when they all have their
  zero value. A label map may be nil.
\<close>

type_synonym labels = "(string \<Rightarrow> string option) option"

type_synonym fields = "(string \<times> string) list"

record K8sVolumeMount =
  kvm_Name :: string
  kvm_MountPath :: string
  kvm_rest :: fields

record ContainerPort =
  cp_ContainerPort :: int
  cp_rest :: fields

record K8sContainer =
  c_Name :: string
  c_Image :: string
  c_ImagePullPolicy :: string
  c_Command :: "string list"
  c_Args :: "string list"
  c_WorkingDir :: string
  c_VolumeMounts :: "K8sVolumeMount list"
  c_Ports :: "ContainerPort list"
  c_rest :: fields

record K8sVolume =
  v_Name :: string
  v_rest :: fields

record LabelSelector =
  MatchLabels :: labels
  sel_rest :: fields

record K8sDeployment =
  d_Name :: string
  d_Labels :: labels
  d_Selector :: "LabelSelector option"
  tpl_Name :: string
  tpl_Labels :: labels
  Containers :: "K8sContainer list"
  d_Volumes :: "K8sVolume list"
  d_rest :: fields

text \<open>
  \<open>OpenError\<close> is the error of \<open>os.Open\<close>, which \<open>Deployment\<close> returns; \<open>NilMapAssignment\<close>
  is the panic of an assignment to an entry of a nil map.
\<close>

datatype deploy_error = OpenError string | NilMapAssignment

text \<open>
  The label \<open>cnd\<close> on a map read from the object: a nil map is replaced by a fresh one
  with the label, any other map gets the entry.
\<close>

definition cndLabels :: "labels \<Rightarrow> string \<Rightarrow> labels" where
  "cndLabels labels name =
     (case labels of
        None \<Rightarrow> Some (Map.empty(''cnd'' \<mapsto> name))
      | Some m \<Rightarrow> Some (m(''cnd'' \<mapsto> name)))"

definition updateCndContainer :: "Dev_swap \<Rightarrow> K8sContainer \<Rightarrow> K8sContainer" where
  "updateCndContainer dev c =
     c\<lparr>c_Image := dep_Image (swap_Deployment (Swap dev)),
       c_ImagePullPolicy := ''IfNotPresent'',
       c_Command := dep_Command (swap_Deployment (Swap dev)),
       c_Args := dep_Args (swap_Deployment (Swap dev)),
       c_WorkingDir := Target (Mount dev),
       c_VolumeMounts := c_VolumeMounts c @
         [\<lparr>kvm_Name = ''cnd-sync'', kvm_MountPath = Target (Mount dev), kvm_rest = []\<rparr>]\<rparr>"

text \<open>
  The loop over the containers of \<open>Deployment\<close>: the first container with the name of the
  manifest, or the first container when the manifest names none, is updated, and the loop
  breaks.
\<close>

fun updateContainers :: "Dev_swap \<Rightarrow> K8sContainer list \<Rightarrow> K8sContainer list" where
  "updateContainers dev [] = []"
| "updateContainers dev (c # cs) =
     (if c_Name c = dep_Container (swap_Deployment (Swap dev)) \<or>
         dep_Container (swap_Deployment (Swap dev)) = []
      then updateCndContainer dev c # cs
      else c # updateContainers dev cs)"

definition syncthingContainer :: K8sContainer where
  "syncthingContainer =
     \<lparr>c_Name = ''cnd-syncthing'',
      c_Image = ''okteto/syncthing:latest'',
      c_ImagePullPolicy = [],
      c_Command = [],
      c_Args = [],
      c_WorkingDir = [],
      c_VolumeMounts =
        [\<lparr>kvm_Name = ''cnd-sync'', kvm_MountPath = ''/var/cnd-sync'', kvm_rest = []\<rparr>],
      c_Ports =
        [\<lparr>cp_ContainerPort = 8384, cp_rest = []\<rparr>, \<lparr>cp_ContainerPort = 22000, cp_rest = []\<rparr>],
      c_rest = []\<rparr>"

definition createSyncthingContainer :: "Dev_swap \<Rightarrow> K8sDeployment \<Rightarrow> K8sDeployment" where
  "createSyncthingContainer dev d = d\<lparr>Containers := Containers d @ [syncthingContainer]\<rparr>"

definition createSyncthingVolume :: "Dev_swap \<Rightarrow> K8sDeployment \<Rightarrow> K8sDeployment" where
  "createSyncthingVolume dev d =
     d\<lparr>d_Volumes := d_Volumes d @ [\<lparr>v_Name = ''cnd-sync'', v_rest = []\<rparr>]\<rparr>"

text \<open>
  The label \<open>cnd\<close> on the selector: a nil selector is replaced by a fresh one; any other
  selector gets the label by an assignment to its map, which panics on a nil map.
\<close>

definition cndSelector :: "LabelSelector option \<Rightarrow> string \<Rightarrow> deploy_error + LabelSelector option" where
  "cndSelector selector name =
     (case selector of
        None \<Rightarrow> Inr (Some \<lparr>MatchLabels = Some (Map.empty(''cnd'' \<mapsto> name)), sel_rest = []\<rparr>)
      | Some sel \<Rightarrow>
          (case MatchLabels sel of
             None \<Rightarrow> Inl NilMapAssignment
           | Some m \<Rightarrow> Inr (Some (sel\<lparr>MatchLabels := Some (m(''cnd'' \<mapsto> name))\<rparr>))))"

text \<open>
  \<open>Deployment\<close>. The argument \<open>file\<close> is what the function gets from the file system: the
  error of \<open>os.Open\<close>, or the deployment as \<open>Decode\<close> leaves it (the function drops the
  error of \<open>Decode\<close>).
\<close>

definition Deployment :: "Dev_swap \<Rightarrow> string + K8sDeployment \<Rightarrow> deploy_error + K8sDeployment" where
  "Deployment dev file =
     (case file of
        Inl err \<Rightarrow> Inl (OpenError err)
      | Inr d0 \<Rightarrow>
          (let d1 = d0\<lparr>d_Name := swap_Name dev,
                       d_Labels := cndLabels (d_Labels d0) (swap_Name dev)\<rparr>
           in case cndSelector (d_Selector d1) (swap_Name dev) of
                Inl err \<Rightarrow> Inl err
              | Inr selector \<Rightarrow>
                  (let d2 = d1\<lparr>d_Selector := selector,
                               tpl_Name := swap_Name dev,
                               tpl_Labels := cndLabels (tpl_Labels d1) (swap_Name dev)\<rparr>;
                       d3 = d2\<lparr>Containers := updateContainers dev (Containers d2)\<rparr>
                   in Inr (createSyncthingVolume dev (createSyncthingContainer dev d3)))))"

section \<open>Properties of the manifest model\<close>

lemma claimLoop_eq:
  "0 \<le> i \<Longrightarrow>
   claimLoop dev i acc =
     acc @ map (\<lambda>k. volumeClaim dev (int k)) [nat i..<Suc (length (Volumes dev))]"
proof (induction dev i acc rule: claimLoop.induct)
  case (1 dev i result)
  let ?n = "length (Volumes dev)"
  let ?f = "\<lambda>k. volumeClaim dev (int k)"
  show ?case
  proof (cases "i \<le> int ?n")
    case True
    have step: "claimLoop dev i result = claimLoop dev (i + 1) (result @ [volumeClaim dev i])"
      using True by (subst claimLoop.simps) (simp only: if_True)
    have nonneg: "0 \<le> i + 1"
      using "1.prems" by linarith
    have ih: "claimLoop dev (i + 1) (result @ [volumeClaim dev i]) =
        (result @ [volumeClaim dev i]) @ map ?f [nat (i + 1)..<Suc ?n]"
      using "1.IH" [OF True nonneg] .
    have lt: "nat i < Suc ?n"
      using True "1.prems" by linarith
    have suc: "nat (i + 1) = Suc (nat i)"
      using "1.prems" by linarith
    have cast: "int (nat i) = i"
      using "1.prems" by linarith
    have "[nat i..<Suc ?n] = nat i # [nat (i + 1)..<Suc ?n]"
      using upt_conv_Cons [OF lt] suc by (simp only:)
    then have "map ?f [nat i..<Suc ?n] = volumeClaim dev i # map ?f [nat (i + 1)..<Suc ?n]"
      using cast by (simp only: list.map)
    then show ?thesis
      using step ih by (simp only: append_assoc append_Cons append_Nil)
  next
    case False
    have stop: "claimLoop dev i result = result"
      using False by (subst claimLoop.simps) (simp only: if_False)
    have "\<not> nat i < Suc ?n"
      using False by linarith
    then have "[nat i..<Suc ?n] = []"
      by simp
    then show ?thesis
      using stop by (simp only: list.map append_Nil2)
  qed
qed

text \<open>
  Claim C10. \<open>UpdateNamespace\<close> with the empty namespace changes nothing and returns
  nil. With a non-empty namespace it returns an error exactly when the manifest already
  has a different non-empty namespace, and then leaves the manifest as it was; otherwise
  it returns nil and sets the namespace.
\<close>

theorem UpdateNamespace_spec:
  "(ns = '''' \<longrightarrow> UpdateNamespace dev ns = (dev, None)) \<and>
   (ns \<noteq> '''' \<longrightarrow>
      (snd (UpdateNamespace dev ns) \<noteq> None) = (Namespace dev \<noteq> '''' \<and> Namespace dev \<noteq> ns)) \<and>
   (snd (UpdateNamespace dev ns) \<noteq> None \<longrightarrow> fst (UpdateNamespace dev ns) = dev) \<and>
   (ns \<noteq> '''' \<and> snd (UpdateNamespace dev ns) = None \<longrightarrow>
      fst (UpdateNamespace dev ns) = dev\<lparr>Namespace := ns\<rparr>)"
  by (simp add: UpdateNamespace_def)

theorem UpdateNamespace_spec_witness:
  "UpdateNamespace Dev_zero [] = (Dev_zero, None) \<and>
   snd (UpdateNamespace (Dev_zero\<lparr>Namespace := ''dev''\<rparr>) ''prod'') \<noteq> None \<and>
   fst (UpdateNamespace (Dev_zero\<lparr>Namespace := ''dev''\<rparr>) ''prod'') =
     Dev_zero\<lparr>Namespace := ''dev''\<rparr> \<and>
   fst (UpdateNamespace Dev_zero ''prod'') = Dev_zero\<lparr>Namespace := ''prod''\<rparr>"
proof -
  let ?dev = "Dev_zero\<lparr>Namespace := ''dev''\<rparr>"
  have ne: "''prod'' \<noteq> ([] :: string)"
    by simp
  have differs: "Namespace ?dev \<noteq> [] \<and> Namespace ?dev \<noteq> ''prod''"
    by simp
  have unset: "Namespace Dev_zero = []"
    by (simp add: Dev_zero_def)
  have a: "UpdateNamespace Dev_zero [] = (Dev_zero, None)"
    using UpdateNamespace_spec [of "[]" Dev_zero] by (simp only: simp_thms)
  have b: "snd (UpdateNamespace ?dev ''prod'') \<noteq> None"
    using UpdateNamespace_spec [of "''prod''" ?dev] ne differs by (simp only: simp_thms)
  have c: "fst (UpdateNamespace ?dev ''prod'') = ?dev"
    using UpdateNamespace_spec [of "''prod''" ?dev] b by (simp only: simp_thms)
  have "snd (UpdateNamespace Dev_zero ''prod'') = None"
    using UpdateNamespace_spec [of "''prod''" Dev_zero] ne unset by (simp only: simp_thms)
  then have d: "fst (UpdateNamespace Dev_zero ''prod'') = Dev_zero\<lparr>Namespace := ''prod''\<rparr>"
    using UpdateNamespace_spec [of "''prod''" Dev_zero] ne by (simp only: simp_thms)
  show ?thesis
    using a b c d by (simp only: simp_thms)
qed

subsection \<open>The names of the volume claims\<close>

text \<open>
  \<open>decimal\<close> writes a number as its decimal numeral: the digits \<open>0\<close> to \<open>9\<close>, at least
  one of them, no leading zero but for the number zero, and their value is the number.
\<close>

lemma digit_char:
  assumes "n < 10"
  shows "of_char (''0123456789'' ! n) = 48 + n \<and> ((''0123456789'' ! n = CHR ''0'') = (n = 0)) \<and>
    ''0123456789'' ! n \<in> set ''0123456789''"
proof -
  from assms consider "n = 0" | "n = 1" | "n = 2" | "n = 3" | "n = 4" | "n = 5" | "n = 6"
    | "n = 7" | "n = 8" | "n = 9"
    by atomize_elim arith
  then show ?thesis
    by cases simp_all
qed

lemma set_single_subset: "x \<in> A \<Longrightarrow> set [x] \<subseteq> A"
  by simp

lemma set_snoc_subset: "set xs \<subseteq> A \<Longrightarrow> x \<in> A \<Longrightarrow> set (xs @ [x]) \<subseteq> A"
  by simp

lemma decimal_nonempty: "decimal n \<noteq> []"
  by (subst decimal.simps) simp

lemma decimal_digits: "set (decimal n) \<subseteq> set ''0123456789''"
proof (induction n rule: decimal.induct)
  case (1 n)
  show ?case
  proof (cases "n < 10")
    case True
    have eq: "decimal n = [''0123456789'' ! n]"
      using True by (subst decimal.simps) (simp only: if_True)
    from digit_char [OF True] have "''0123456789'' ! n \<in> set ''0123456789''"
      by (rule conjunct2 [THEN conjunct2])
    then show ?thesis
      unfolding eq by (rule set_single_subset)
  next
    case False
    have eq: "decimal n = decimal (n div 10) @ [''0123456789'' ! (n mod 10)]"
      using False by (subst decimal.simps) (simp only: if_False)
    have "n mod 10 < 10"
      by simp
    from digit_char [OF this] have "''0123456789'' ! (n mod 10) \<in> set ''0123456789''"
      by (rule conjunct2 [THEN conjunct2])
    with "1.IH" [OF False] show ?thesis
      unfolding eq by (rule set_snoc_subset)
  qed
qed

lemma decimal_leading: "(hd (decimal n) = CHR ''0'') = (n = 0)"
proof (induction n rule: decimal.induct)
  case (1 n)
  show ?case
  proof (cases "n < 10")
    case True
    have "decimal n = [''0123456789'' ! n]"
      using True by (subst decimal.simps) (simp only: if_True)
    then show ?thesis
      using digit_char [OF True] by (simp only: list.sel)
  next
    case False
    have eq: "decimal n = decimal (n div 10) @ [''0123456789'' ! (n mod 10)]"
      using False by (subst decimal.simps) (simp only: if_False)
    have "hd (decimal n) = hd (decimal (n div 10))"
      unfolding eq using decimal_nonempty [of "n div 10"] by (rule hd_append2)
    moreover have "n div 10 \<noteq> 0" and "n \<noteq> 0"
      using False by simp_all
    ultimately show ?thesis
      using "1.IH" [OF False] by (simp only: simp_thms)
  qed
qed

lemma decimal_value: "foldl (\<lambda>v c. 10 * v + (of_char c - 48)) 0 (decimal n) = n"
proof (induction n rule: decimal.induct)
  case (1 n)
  show ?case
  proof (cases "n < 10")
    case True
    have "decimal n = [''0123456789'' ! n]"
      using True by (subst decimal.simps) (simp only: if_True)
    then show ?thesis
      using digit_char [OF True] by simp
  next
    case False
    have eq: "decimal n = decimal (n div 10) @ [''0123456789'' ! (n mod 10)]"
      using False by (subst decimal.simps) (simp only: if_False)
    have "n mod 10 < 10"
      by simp
    from digit_char [OF this] have "of_char (''0123456789'' ! (n mod 10)) = 48 + n mod 10"
      by (simp only:)
    then show ?thesis
      unfolding eq using "1.IH" [OF False] by simp
  qed
qed

text \<open>
  Claim C8. For a manifest with \<open>n\<close> declared volumes the volume claim templates are
  \<open>n + 1\<close> claims; the claim at position \<open>k\<close> (from 0 to \<open>n\<close>) is named \<open>pvc-\<close> followed
  by the decimal numeral of \<open>k\<close>, has the single access mode ReadWriteOnce and requests
  10Gi of storage. The first claim is named \<open>pvc-0\<close>. The numeral of \<open>k\<close> is not empty,
  consists of the digits \<open>0\<close> to \<open>9\<close>, starts with \<open>0\<close> only when \<open>k\<close> is zero, and read in
  base ten it gives \<open>k\<close>: the names are \<open>pvc-0\<close>, \<open>pvc-1\<close>, and so on to \<open>pvc-n\<close>.
\<close>

theorem translateVolumeClaimTemplates_spec:
  "length (translateVolumeClaimTemplates dev) = length (Volumes dev) + 1 \<and>
   translateVolumeClaimTemplates dev =
     map (\<lambda>k. \<lparr>pvc_Name = ''pvc-'' @ decimal k,
                 pvc_AccessModes = [''ReadWriteOnce''],
                 pvc_Requests = [(''storage'', ''10Gi'')]\<rparr>)
       [0..<length (Volumes dev) + 1] \<and>
   pvc_Name (hd (translateVolumeClaimTemplates dev)) = ''pvc-0'' \<and>
   decimal k \<noteq> [] \<and>
   set (decimal k) \<subseteq> set ''0123456789'' \<and>
   (hd (decimal k) = CHR ''0'') = (k = 0) \<and>
   foldl (\<lambda>v c. 10 * v + (of_char c - 48)) 0 (decimal k) = k"
proof -
  let ?claim = "\<lambda>k. \<lparr>pvc_Name = ''pvc-'' @ decimal k, pvc_AccessModes = [''ReadWriteOnce''],
      pvc_Requests = [(''storage'', ''10Gi'')]\<rparr>"
  have claim: "volumeClaim dev (int k) = ?claim k" for k
    by (simp add: volumeClaim_def GetVolumeTemplateName_def Sprintf_d_def ReadWriteOnce_def)
  have "translateVolumeClaimTemplates dev =
      [] @ map (\<lambda>k. volumeClaim dev (int k)) [nat 0..<Suc (length (Volumes dev))]"
    unfolding translateVolumeClaimTemplates_def by (rule claimLoop_eq) simp
  then have "translateVolumeClaimTemplates dev =
      map (\<lambda>k. volumeClaim dev (int k)) [0..<length (Volumes dev) + 1]"
    by (simp only: append_Nil nat_0 Suc_eq_plus1)
  then have eq: "translateVolumeClaimTemplates dev = map ?claim [0..<length (Volumes dev) + 1]"
    by (simp only: claim)
  have len: "length (translateVolumeClaimTemplates dev) = length (Volumes dev) + 1"
    by (simp only: eq length_map length_upt diff_zero)
  have nonempty: "[0..<length (Volumes dev) + 1] \<noteq> []"
    by simp
  have "hd (translateVolumeClaimTemplates dev) = ?claim (hd [0..<length (Volumes dev) + 1])"
    unfolding eq using nonempty by (rule hd_map)
  moreover have "hd [0..<length (Volumes dev) + 1] = 0"
    by (rule hd_upt) simp
  moreover have "decimal 0 = ''0''"
    by (subst decimal.simps) simp
  ultimately have first: "pvc_Name (hd (translateVolumeClaimTemplates dev)) = ''pvc-0''"
    by simp
  show ?thesis
    using len eq first decimal_nonempty [of k] decimal_digits [of k] decimal_leading [of k]
      decimal_value [of k]
    by (intro conjI)
qed

theorem translateVolumeClaimTemplates_spec_witness:
  "map pvc_Name
     (translateVolumeClaimTemplates
        (Dev_zero\<lparr>Volumes := replicate 10 \<lparr>vol_SubPath = [], vol_MountPath = ''/data''\<rparr>\<rparr>)) =
   [''pvc-0'', ''pvc-1'', ''pvc-2'', ''pvc-3'', ''pvc-4'', ''pvc-5'', ''pvc-6'', ''pvc-7'',
    ''pvc-8'', ''pvc-9'', ''pvc-10'']"
proof -
  let ?dev = "Dev_zero\<lparr>Volumes := replicate 10 \<lparr>vol_SubPath = [], vol_MountPath = ''/data''\<rparr>\<rparr>"
  let ?claim = "\<lambda>k. \<lparr>pvc_Name = ''pvc-'' @ decimal k, pvc_AccessModes = [''ReadWriteOnce''],
      pvc_Requests = [(''storage'', ''10Gi'')]\<rparr>"
  have len: "length (Volumes ?dev) + 1 = 11"
    by simp
  have "translateVolumeClaimTemplates ?dev = map ?claim [0..<length (Volumes ?dev) + 1]"
    using translateVolumeClaimTemplates_spec [of ?dev 0] by (rule conjunct2 [THEN conjunct1])
  then have "translateVolumeClaimTemplates ?dev = map ?claim [0..<11]"
    by (simp only: len)
  then have "map pvc_Name (translateVolumeClaimTemplates ?dev) =
      map (\<lambda>k. ''pvc-'' @ decimal k) [0..<11]"
    by simp
  moreover have "map (\<lambda>k. ''pvc-'' @ decimal k) [0..<11] =
      [''pvc-0'', ''pvc-1'', ''pvc-2'', ''pvc-3'', ''pvc-4'', ''pvc-5'', ''pvc-6'', ''pvc-7'',
       ''pvc-8'', ''pvc-9'', ''pvc-10'']"
    by code_simp
  ultimately show ?thesis
    by (rule trans)
qed

subsection \<open>The defaults of a manifest\<close>

lemma default_Command_fields:
  "Command (default_Command d) = (if Command d = [] then [''sh''] else Command d) \<and>
   MountPath (default_Command d) = MountPath d \<and> WorkDir (default_Command d) = WorkDir d \<and>
   Services (default_Command d) = Services d"
  by (simp add: default_Command_def)

lemma default_paths_fields:
  "Command (default_paths d) = Command d \<and>
   MountPath (default_paths d) = (if MountPath d = [] \<and> WorkDir d = [] then ''/okteto'' else MountPath d) \<and>
   WorkDir (default_paths d) = (if MountPath d = [] \<and> WorkDir d = [] then ''/okteto'' else WorkDir d) \<and>
   Services (default_paths d) = Services d"
  by (simp add: default_paths_def)

lemma default_ImagePullPolicy_fields:
  "Command (default_ImagePullPolicy d) = Command d \<and>
   MountPath (default_ImagePullPolicy d) = MountPath d \<and>
   WorkDir (default_ImagePullPolicy d) = WorkDir d \<and>
   Services (default_ImagePullPolicy d) = Services d"
  by (simp add: default_ImagePullPolicy_def)

lemma default_MountPath_fields:
  "Command (default_MountPath d) = Command d \<and>
   MountPath (default_MountPath d) = (if MountPath d = [] then WorkDir d else MountPath d) \<and>
   WorkDir (default_MountPath d) = WorkDir d \<and>
   Services (default_MountPath d) = Services d"
  by (simp add: default_MountPath_def)

lemma default_Labels_fields:
  "Command (default_Labels d) = Command d \<and> MountPath (default_Labels d) = MountPath d \<and>
   WorkDir (default_Labels d) = WorkDir d \<and> Services (default_Labels d) = Services d"
  by (simp add: default_Labels_def)

lemma default_Annotations_fields:
  "Command (default_Annotations d) = Command d \<and>
   MountPath (default_Annotations d) = MountPath d \<and>
   WorkDir (default_Annotations d) = WorkDir d \<and>
   Services (default_Annotations d) = Services d"
  by (simp add: default_Annotations_def)

lemma setDefaults_dev_fields:
  "Command (setDefaults_dev d) = (if Command d = [] then [''sh''] else Command d) \<and>
   MountPath (setDefaults_dev d) =
     (if MountPath d = [] then (if WorkDir d = [] then ''/okteto'' else WorkDir d) else MountPath d) \<and>
   WorkDir (setDefaults_dev d) =
     (if MountPath d = [] \<and> WorkDir d = [] then ''/okteto'' else WorkDir d) \<and>
   Services (setDefaults_dev d) = Services d"
  by (simp add: setDefaults_dev_def default_Command_fields default_paths_fields
      default_ImagePullPolicy_fields default_MountPath_fields default_Labels_fields
      default_Annotations_fields)

lemma setDefaults_svc_keep:
  "MountPath s \<noteq> [] \<Longrightarrow>
   Command (setDefaults_svc s) = Command s \<and> MountPath (setDefaults_svc s) = MountPath s \<and>
   WorkDir (setDefaults_svc s) = WorkDir s"
  by (simp add: setDefaults_svc_def default_paths_fields
      default_ImagePullPolicy_fields default_MountPath_fields default_Labels_fields
      default_Annotations_fields)

lemma setDefaults_step_frame:
  "setDefaults_step h sp = (h', eo) \<Longrightarrow> sp \<noteq> Some a \<Longrightarrow> h' a = h a"
  by (auto simp: setDefaults_step_def Let_def split: option.splits if_splits)

lemma setDefaults_step_cleared:
  "setDefaults_step h sp = (h', None) \<Longrightarrow>
   \<exists>sv. deref h' sp = Some sv \<and> Namespace sv = [] \<and> Forward sv = [] \<and>
     RemoteForward sv = [] \<and> Volumes sv = [] \<and> Services sv = []"
  by (auto simp: setDefaults_step_def deref_def Let_def split: option.splits if_splits)

lemma setDefaults_step_keep:
  assumes "setDefaults_step h sp = (h', eo)" and "h a = Some v" and "MountPath v \<noteq> []"
  shows "\<exists>v'. h' a = Some v' \<and> Command v' = Command v \<and> MountPath v' = MountPath v \<and>
     WorkDir v' = WorkDir v"
proof (cases "sp = Some a")
  case True
  with assms show ?thesis
    by (auto simp: setDefaults_step_def Let_def setDefaults_svc_keep split: if_splits)
next
  case False
  with assms setDefaults_step_frame [of h sp h' eo a] show ?thesis
    by simp
qed

lemma setDefaults_step_stays_cleared:
  assumes "setDefaults_step h sp = (h', None)" and "deref h x = Some v"
    and "Namespace v = [] \<and> Forward v = [] \<and> RemoteForward v = [] \<and> Volumes v = [] \<and>
      Services v = []"
  shows "\<exists>v'. deref h' x = Some v' \<and> Namespace v' = [] \<and> Forward v' = [] \<and>
     RemoteForward v' = [] \<and> Volumes v' = [] \<and> Services v' = []"
proof (cases "sp = x")
  case True
  with assms(1) show ?thesis
    by (simp only: setDefaults_step_cleared)
next
  case False
  from assms(2) obtain a where x: "x = Some a" and "h a = Some v"
    by (cases x) (simp_all add: deref_def)
  with False assms(1) have "h' a = Some v"
    using setDefaults_step_frame [of h sp h' None a] by simp
  with x assms(3) show ?thesis
    by (simp add: deref_def)
qed

lemma setDefaults_loop_frame:
  "setDefaults_loop h sps = (h', eo) \<Longrightarrow> Some a \<notin> set sps \<Longrightarrow> h' a = h a"
proof (induction sps arbitrary: h)
  case Nil
  then show ?case by simp
next
  case (Cons sp sps)
  obtain h1 e1 where step: "setDefaults_step h sp = (h1, e1)"
    by (cases "setDefaults_step h sp")
  from Cons.prems(2) have ne: "sp \<noteq> Some a" and rest: "Some a \<notin> set sps"
    by auto
  have h1: "h1 a = h a"
    using setDefaults_step_frame [OF step ne] .
  show ?case
  proof (cases e1)
    case None
    with step Cons.prems(1) have "setDefaults_loop h1 sps = (h', eo)"
      by simp
    from Cons.IH [OF this rest] h1 show ?thesis
      by simp
  next
    case (Some e)
    with step Cons.prems(1) have "h' = h1"
      by simp
    with h1 show ?thesis
      by simp
  qed
qed

lemma setDefaults_loop_keep:
  "setDefaults_loop h sps = (h', eo) \<Longrightarrow> h a = Some v \<Longrightarrow> MountPath v \<noteq> [] \<Longrightarrow>
   \<exists>v'. h' a = Some v' \<and> Command v' = Command v \<and> MountPath v' = MountPath v \<and>
     WorkDir v' = WorkDir v"
proof (induction sps arbitrary: h v)
  case Nil
  then show ?case by simp
next
  case (Cons sp sps)
  obtain h1 e1 where step: "setDefaults_step h sp = (h1, e1)"
    by (cases "setDefaults_step h sp")
  from setDefaults_step_keep [OF step Cons.prems(2,3)]
  obtain v1 where v1: "h1 a = Some v1" "Command v1 = Command v" "MountPath v1 = MountPath v"
      "WorkDir v1 = WorkDir v"
    by blast
  show ?case
  proof (cases e1)
    case None
    with step Cons.prems(1) have "setDefaults_loop h1 sps = (h', eo)"
      by simp
    from Cons.IH [OF this v1(1)] v1 Cons.prems(3) show ?thesis
      by simp
  next
    case (Some e)
    with step Cons.prems(1) have "h' = h1"
      by simp
    with v1 show ?thesis
      by simp
  qed
qed

lemma setDefaults_loop_stays_cleared:
  "setDefaults_loop h sps = (h', None) \<Longrightarrow> deref h x = Some v \<Longrightarrow>
   Namespace v = [] \<and> Forward v = [] \<and> RemoteForward v = [] \<and> Volumes v = [] \<and>
     Services v = [] \<Longrightarrow>
   \<exists>v'. deref h' x = Some v' \<and> Namespace v' = [] \<and> Forward v' = [] \<and>
     RemoteForward v' = [] \<and> Volumes v' = [] \<and> Services v' = []"
proof (induction sps arbitrary: h v)
  case Nil
  then show ?case by simp
next
  case (Cons sp sps)
  obtain h1 e1 where step: "setDefaults_step h sp = (h1, e1)"
    by (cases "setDefaults_step h sp")
  with Cons.prems(1) have e1: "e1 = None" and rest: "setDefaults_loop h1 sps = (h', None)"
    by (cases e1; simp)+
  from setDefaults_step_stays_cleared [OF step [unfolded e1] Cons.prems(2,3)]
  obtain v1 where "deref h1 x = Some v1" and "Namespace v1 = [] \<and> Forward v1 = [] \<and>
      RemoteForward v1 = [] \<and> Volumes v1 = [] \<and> Services v1 = []"
    by blast
  from Cons.IH [OF rest this] show ?case .
qed

lemma setDefaults_loop_cleared:
  "setDefaults_loop h sps = (h', None) \<Longrightarrow> sp \<in> set sps \<Longrightarrow>
   \<exists>sv. deref h' sp = Some sv \<and> Namespace sv = [] \<and> Forward sv = [] \<and>
     RemoteForward sv = [] \<and> Volumes sv = [] \<and> Services sv = []"
proof (induction sps arbitrary: h)
  case Nil
  then show ?case by simp
next
  case (Cons s sps)
  obtain h1 e1 where step: "setDefaults_step h s = (h1, e1)"
    by (cases "setDefaults_step h s")
  with Cons.prems(1) have e1: "e1 = None" and rest: "setDefaults_loop h1 sps = (h', None)"
    by (cases e1; simp)+
  show ?case
  proof (cases "sp = s")
    case True
    from setDefaults_step_cleared [OF step [unfolded e1]] True
    obtain sv where "deref h1 sp = Some sv" and "Namespace sv = [] \<and> Forward sv = [] \<and>
        RemoteForward sv = [] \<and> Volumes sv = [] \<and> Services sv = []"
      by blast
    from setDefaults_loop_stays_cleared [OF rest this] show ?thesis .
  next
    case False
    with Cons.prems(2) have "sp \<in> set sps"
      by simp
    from Cons.IH [OF rest this] show ?thesis .
  qed
qed

lemma Read_Inr:
  assumes "Read U E b = Inr (h, p)"
  shows "\<exists>h1 dev dev'. U b (Map.empty(0 \<mapsto> Read_new)) 0 = Inr h1 \<and> h1 0 = Some dev \<and>
      Command dev' = Command dev \<and> MountPath dev' = MountPath dev \<and>
      WorkDir dev' = WorkDir dev \<and> Services dev' = Services dev \<and>
      setDefaults_loop (h1(0 \<mapsto> setDefaults_dev dev')) (Services (setDefaults_dev dev')) = (h, None) \<and>
      p = Some 0"
proof (cases "U b (Map.empty(0 \<mapsto> Read_new)) 0")
  case (Inl err)
  with assms show ?thesis
    by (simp add: Read_def split: if_splits)
next
  case (Inr h1)
  show ?thesis
  proof (cases "h1 0")
    case None
    with Inr assms show ?thesis
      by (simp add: Read_def)
  next
    case (Some dev)
    show ?thesis
    proof (cases "length (Image' dev) > 0")
      case True
      with Inr Some assms show ?thesis
        by (auto simp: Read_def setDefaults_def Let_def split: prod.splits option.splits
            intro!: exI [of _ "dev\<lparr>Image' := E (Image' dev)\<rparr>"])
    next
      case False
      with Inr Some assms show ?thesis
        by (auto simp: Read_def setDefaults_def Let_def split: prod.splits option.splits
            intro!: exI [of _ dev])
    qed
  qed
qed

text \<open>
  Claim C9, as the code has it. For every manifest that \<open>Read\<close> accepts, the returned
  manifest has a non-empty command and a non-empty mount path. An undeclared command
  becomes \<open>sh\<close>; with neither mount path nor work directory declared both become
  \<open>/okteto\<close>; with only the work directory declared the mount path is the work directory.
  The work directory is left empty exactly when the manifest declares a mount path and no
  work directory. Here \<open>decoded\<close> is the manifest as the YAML decoder returns it.
\<close>

theorem Read_defaults:
  assumes "UnmarshalStrict bytes (Map.empty(0 \<mapsto> Read_new)) 0 = Inr h1"
    and "h1 0 = Some decoded"
    and "Read UnmarshalStrict ExpandEnv bytes = Inr (h, p)"
  shows "\<exists>dev. deref h p = Some dev \<and> Command dev \<noteq> [] \<and> MountPath dev \<noteq> [] \<and>
      (WorkDir dev = []) = (WorkDir decoded = [] \<and> MountPath decoded \<noteq> []) \<and>
      Command dev = (if Command decoded = [] then [''sh''] else Command decoded) \<and>
      MountPath dev =
        (if MountPath decoded \<noteq> [] then MountPath decoded
         else if WorkDir decoded \<noteq> [] then WorkDir decoded else ''/okteto'') \<and>
      WorkDir dev =
        (if MountPath decoded = [] \<and> WorkDir decoded = [] then ''/okteto'' else WorkDir decoded)"
proof -
  from Read_Inr [OF assms(3)] assms(1,2)
  obtain dev' where same: "Command dev' = Command decoded" "MountPath dev' = MountPath decoded"
      "WorkDir dev' = WorkDir decoded"
    and loop: "setDefaults_loop (h1(0 \<mapsto> setDefaults_dev dev')) (Services (setDefaults_dev dev')) =
      (h, None)"
    and p: "p = Some 0"
    by auto
  let ?d = "setDefaults_dev dev'"
  have mp: "MountPath ?d \<noteq> []"
    by (simp add: setDefaults_dev_fields)
  have "(h1(0 \<mapsto> ?d)) 0 = Some ?d"
    by simp
  from setDefaults_loop_keep [OF loop this mp]
  obtain dev where dev: "h 0 = Some dev" "Command dev = Command ?d" "MountPath dev = MountPath ?d"
      "WorkDir dev = WorkDir ?d"
    by blast
  have "deref h p = Some dev"
    using p dev(1) by (simp add: deref_def)
  then show ?thesis
    using dev(2-4) same by (simp add: setDefaults_dev_fields)
qed

theorem Read_defaults_witness:
  "\<exists>h dev. Read (\<lambda>bytes h a. Inr h) (\<lambda>s. s) [] = Inr (h, Some 0) \<and> h 0 = Some dev \<and>
     Command dev = [''sh''] \<and> MountPath dev = ''/okteto'' \<and> WorkDir dev = ''/okteto''"
proof -
  let ?U = "\<lambda>(bytes :: string) (h :: heap) (a :: nat). (Inr h :: string + heap)"
  have decoded: "?U [] (Map.empty(0 \<mapsto> Read_new)) 0 = Inr (Map.empty(0 \<mapsto> Read_new))"
    by simp
  have at0: "(Map.empty(0 \<mapsto> Read_new)) (0 :: nat) = Some Read_new"
    by simp
  have fields: "Command Read_new = [] \<and> MountPath Read_new = [] \<and> WorkDir Read_new = []"
    by (simp add: Read_new_def Dev_zero_def)
  obtain h where r: "Read ?U (\<lambda>s. s) [] = Inr (h, Some 0)"
    by (simp add: Read_def Read_new_def Dev_zero_def setDefaults_def setDefaults_dev_def
        default_Command_def default_paths_def default_ImagePullPolicy_def
        default_MountPath_def default_Labels_def default_Annotations_def Let_def)
  from Read_defaults [of ?U "[]" "Map.empty(0 \<mapsto> Read_new)" Read_new "\<lambda>s. s" h "Some 0",
      OF decoded at0 r]
  obtain dev where "deref h (Some 0) = Some dev" and "Command dev = [''sh'']"
    and "MountPath dev = ''/okteto''" and "WorkDir dev = ''/okteto''"
    using fields by auto
  then show ?thesis
    using r by (auto simp: deref_def)
qed

text \<open>
  The work directory of a returned manifest can be empty: a manifest that declares only
  \<open>mountpath: /app\<close> is accepted and comes back with the mount path \<open>/app\<close> and no work
  directory.
\<close>

theorem Read_workdir_counterexample:
  "(case Read (\<lambda>bytes h a. map_sum id (\<lambda>d. h(a \<mapsto> d\<lparr>Name := ''api'', MountPath := ''/app''\<rparr>))
        (case h a of None \<Rightarrow> Inl ''nil'' | Some d \<Rightarrow> Inr d))
      (\<lambda>s. s) ''mountpath: /app'' of
      Inl e \<Rightarrow> False
    | Inr (h, p) \<Rightarrow>
        (case deref h p of None \<Rightarrow> False | Some dev \<Rightarrow> WorkDir dev = [] \<and> MountPath dev = ''/app''))"
  by (simp add: Read_def Read_new_def Dev_zero_def setDefaults_def setDefaults_dev_def
      default_Command_def default_paths_def default_ImagePullPolicy_def default_MountPath_def
      default_Labels_def default_Annotations_def deref_def Let_def)

text \<open>
  Claim C7. For every manifest that \<open>Read\<close> returns, every entry of its services is a
  manifest with the empty namespace and with no forwards, no reverse forwards, no volumes
  and no services of its own.
\<close>

theorem Read_services:
  assumes "Read UnmarshalStrict ExpandEnv bytes = Inr (h, p)"
  shows "\<exists>dev. deref h p = Some dev \<and>
      (\<forall>sp \<in> set (Services dev). \<exists>sv. deref h sp = Some sv \<and> Namespace sv = [] \<and>
         Forward sv = [] \<and> RemoteForward sv = [] \<and> Volumes sv = [] \<and> Services sv = [])"
proof -
  from Read_Inr [OF assms]
  obtain h1 dev' where loop:
      "setDefaults_loop (h1(0 \<mapsto> setDefaults_dev dev')) (Services (setDefaults_dev dev')) = (h, None)"
    and p: "p = Some 0"
    by auto
  let ?d = "setDefaults_dev dev'"
  let ?h = "h1(0 \<mapsto> ?d)"
  show ?thesis
  proof (cases "Some 0 \<in> set (Services ?d)")
    case True
    from setDefaults_loop_cleared [OF loop True]
    obtain sv where "deref h (Some 0) = Some sv" and "Services sv = []"
      by blast
    with p show ?thesis
      by simp
  next
    case False
    from setDefaults_loop_frame [OF loop False] have "h 0 = Some ?d"
      by simp
    then have "deref h p = Some ?d"
      using p by (simp add: deref_def)
    moreover have "\<exists>sv. deref h sp = Some sv \<and> Namespace sv = [] \<and> Forward sv = [] \<and>
        RemoteForward sv = [] \<and> Volumes sv = [] \<and> Services sv = []"
      if "sp \<in> set (Services ?d)" for sp
      using setDefaults_loop_cleared [OF loop that] .
    ultimately show ?thesis
      by blast
  qed
qed

theorem Read_services_witness:
  "\<exists>h dev sv.
     Read (\<lambda>bytes h a. Inr (h(a \<mapsto> Read_new\<lparr>Name := ''api'', Services := [Some 1]\<rparr>,
             1 \<mapsto> Dev_zero\<lparr>Name := ''worker'', Namespace := ''prod'',
                   Forward := [\<lparr>fwd_Local = 8080, fwd_Remote = 80\<rparr>], Services := [Some 2]\<rparr>,
             2 \<mapsto> Dev_zero)))
       (\<lambda>s. s) ''name: api'' = Inr (h, Some 0) \<and>
     h 0 = Some dev \<and> Services dev = [Some 1] \<and> h 1 = Some sv \<and> Namespace sv = [] \<and>
     Forward sv = [] \<and> RemoteForward sv = [] \<and> Volumes sv = [] \<and> Services sv = []"
proof -
  let ?U = "\<lambda>(bytes :: string) (h :: heap) (a :: nat).
      (Inr (h(a \<mapsto> Read_new\<lparr>Name := ''api'', Services := [Some 1]\<rparr>,
             1 \<mapsto> Dev_zero\<lparr>Name := ''worker'', Namespace := ''prod'',
                   Forward := [\<lparr>fwd_Local = 8080, fwd_Remote = 80\<rparr>], Services := [Some 2]\<rparr>,
             2 \<mapsto> Dev_zero)) :: string + heap)"
  obtain h where r: "Read ?U (\<lambda>s. s) ''name: api'' = Inr (h, Some 0)"
    and main: "\<exists>dev. h 0 = Some dev \<and> Services dev = [Some 1]"
    by (simp add: Read_def Read_new_def Dev_zero_def setDefaults_def setDefaults_dev_def
        setDefaults_step_def setDefaults_svc_def maplen_def
        default_Command_def default_paths_def default_ImagePullPolicy_def
        default_MountPath_def default_Labels_def default_Annotations_def Let_def)
  from Read_services [OF r] main
  have "\<exists>sv. deref h (Some 1) = Some sv \<and> Namespace sv = [] \<and> Forward sv = [] \<and>
      RemoteForward sv = [] \<and> Volumes sv = [] \<and> Services sv = []"
    by (auto simp: deref_def)
  then show ?thesis
    using r main by (auto simp: deref_def)
qed

subsection \<open>Translation rules\<close>

text \<open>
  Claim C6. The rule of the main container (\<open>ToTranslationRule\<close> called on the manifest
  with itself as \<open>main\<close>) has healthchecks off and the command
  \<open>/var/okteto/bin/start.sh\<close>; its arguments are \<open>-r\<close> exactly when the remote port is
  positive or a reverse forward is declared, and empty otherwise. The rule of a service
  (a manifest other than \<open>main\<close>) has healthchecks on.
\<close>

theorem ToTranslationRule_spec:
  "(deref h p = Some dev \<longrightarrow>
      (\<exists>rule. ToTranslationRule Join h p p = Inr rule \<and> \<not> tr_Healthchecks rule \<and>
         tr_Command rule = [''/var/okteto/bin/start.sh''] \<and>
         (tr_Args rule = [''-r'']) = (RemotePort dev > 0 \<or> RemoteForward dev \<noteq> []) \<and>
         (tr_Args rule = [''-r''] \<or> tr_Args rule = []))) \<and>
   (deref h p = Some dev \<and> deref h sp = Some svc \<and> sp \<noteq> p \<longrightarrow>
      (\<exists>rule. ToTranslationRule Join h sp p = Inr rule \<and> tr_Healthchecks rule))"
  by (simp add: ToTranslationRule_def RemoteModeEnabled_def Let_def)

theorem ToTranslationRule_spec_witness:
  "(\<exists>rule. ToTranslationRule concat (Map.empty(0 \<mapsto> Dev_zero\<lparr>RemotePort := 2222\<rparr>, 1 \<mapsto> Dev_zero))
       (Some 0) (Some 0) = Inr rule \<and> \<not> tr_Healthchecks rule \<and>
       tr_Command rule = [''/var/okteto/bin/start.sh''] \<and> tr_Args rule = [''-r'']) \<and>
   (\<exists>rule. ToTranslationRule concat (Map.empty(0 \<mapsto> Dev_zero\<lparr>RemotePort := 2222\<rparr>, 1 \<mapsto> Dev_zero))
       (Some 1) (Some 0) = Inr rule \<and> tr_Healthchecks rule)"
proof -
  let ?h = "Map.empty(0 \<mapsto> Dev_zero\<lparr>RemotePort := 2222\<rparr>, 1 \<mapsto> Dev_zero) :: heap"
  have main: "deref ?h (Some 0) = Some (Dev_zero\<lparr>RemotePort := 2222\<rparr>)"
    by (simp add: deref_def)
  have svc: "deref ?h (Some 1) = Some Dev_zero"
    by (simp add: deref_def)
  have ne: "Some (1 :: nat) \<noteq> Some 0"
    by simp
  have remote: "RemotePort (Dev_zero\<lparr>RemotePort := 2222\<rparr>) > 0"
    by simp
  from ToTranslationRule_spec [of ?h "Some 0" "Dev_zero\<lparr>RemotePort := 2222\<rparr>" concat "Some 1" Dev_zero]
    main svc ne remote
  show ?thesis
    by blast
qed

section \<open>Properties of the up command\<close>

lemma WaitUntilExitOrInterrupt_errors:
  "WaitUntilExitOrInterrupt (map ErrChan msgs @ evs) out =
     WaitUntilExitOrInterrupt evs (out @ map Yellow msgs)"
  by (induction msgs arbitrary: out) simp_all

lemma WaitUntilExitOrInterrupt_nil:
  "(fst (WaitUntilExitOrInterrupt evs out) = Returns None) =
     (\<exists>msgs rest. evs = map ErrChan msgs @ Running None # rest)"
proof (induction evs arbitrary: out)
  case Nil
  then show ?case by simp
next
  case (Cons ev evs)
  show ?case
  proof (cases ev)
    case (Running err)
    show ?thesis
    proof (cases err)
      case None
      have "ev # evs = map ErrChan [] @ Running None # evs"
        using Running None by simp
      then have "\<exists>msgs rest. ev # evs = map ErrChan msgs @ Running None # rest"
        by blast
      then show ?thesis
        using Running None by simp
    next
      case (Some e)
      have "ev # evs \<noteq> map ErrChan msgs @ Running None # rest" for msgs rest
        using Running Some by (cases msgs) auto
      then show ?thesis
        using Running Some by simp
    qed
  next
    case (ErrChan m)
    have "(\<exists>msgs rest. ev # evs = map ErrChan msgs @ Running None # rest) =
        (\<exists>msgs rest. evs = map ErrChan msgs @ Running None # rest)"
    proof
      assume "\<exists>msgs rest. ev # evs = map ErrChan msgs @ Running None # rest"
      then obtain msgs rest where eq: "ev # evs = map ErrChan msgs @ Running None # rest"
        by blast
      then obtain ms where "msgs = m # ms"
        using ErrChan by (cases msgs) auto
      with eq have "evs = map ErrChan ms @ Running None # rest"
        by simp
      then show "\<exists>msgs rest. evs = map ErrChan msgs @ Running None # rest"
        by blast
    next
      assume "\<exists>msgs rest. evs = map ErrChan msgs @ Running None # rest"
      then obtain msgs rest where "evs = map ErrChan msgs @ Running None # rest"
        by blast
      then have "ev # evs = map ErrChan (m # msgs) @ Running None # rest"
        using ErrChan by simp
      then show "\<exists>msgs rest. ev # evs = map ErrChan msgs @ Running None # rest"
        by blast
    qed
    then show ?thesis
      using ErrChan Cons.IH by simp
  next
    case Disconnect
    have "ev # evs \<noteq> map ErrChan msgs @ Running None # rest" for msgs rest
      using Disconnect by (cases msgs) auto
    then show ?thesis
      using Disconnect by simp
  qed
qed

text \<open>
  Claim C4. \<open>WaitUntilExitOrInterrupt\<close> returns nil exactly when, after any number of
  messages on the errors channel, the command completes with a nil error. It returns
  \<open>ErrCommandFailed\<close> when the command completes with an error and \<open>ErrLostConnection\<close>
  when the disconnect channel fires. A message on the errors channel is printed in yellow
  and the wait goes on: with nothing but such messages the function does not return.
\<close>

theorem WaitUntilExitOrInterrupt_spec:
  "WaitUntilExitOrInterrupt (map ErrChan msgs @ Running None # rest) out =
     (Returns None,
      out @ map Yellow msgs @ [Println, Info ''Command finished execution without any errors'']) \<and>
   WaitUntilExitOrInterrupt (map ErrChan msgs @ Running (Some e) # rest) out =
     (Returns (Some ErrCommandFailed),
      out @ map Yellow msgs @ [Println, Info (''Command execution error: '' @ e)]) \<and>
   WaitUntilExitOrInterrupt (map ErrChan msgs @ Disconnect # rest) out =
     (Returns (Some ErrLostConnection), out @ map Yellow msgs) \<and>
   WaitUntilExitOrInterrupt (map ErrChan msgs) out = (Blocked, out @ map Yellow msgs) \<and>
   (fst (WaitUntilExitOrInterrupt evs out) = Returns None) =
     (\<exists>msgs rest. evs = map ErrChan msgs @ Running None # rest)"
proof -
  have "WaitUntilExitOrInterrupt (map ErrChan msgs) out = (Blocked, out @ map Yellow msgs)"
    using WaitUntilExitOrInterrupt_errors [of msgs "[]" out] by simp
  then show ?thesis
    by (simp add: WaitUntilExitOrInterrupt_errors WaitUntilExitOrInterrupt_nil)
qed

lemma addForwards_append:
  "addForwards ports fs = Inr ports' \<Longrightarrow>
   ports' = ports @ map (\<lambda>f. (fwd_Local f, fwd_Remote f)) fs"
proof (induction fs arbitrary: ports)
  case Nil
  then show ?case by simp
next
  case (Cons f fs)
  from Cons.prems obtain p1 where a: "Add ports (fwd_Local f) (fwd_Remote f) = Inr p1"
    and rest: "addForwards p1 fs = Inr ports'"
    by (auto split: sum.splits)
  from a have "p1 = ports @ [(fwd_Local f, fwd_Remote f)]"
    by (auto simp: Add_def split: if_splits)
  with Cons.IH [OF rest] show ?case
    by simp
qed

text \<open>
  Claim C5, as the code has it. When \<open>devMode\<close> has registered all its ports, the
  forwards of the manifest come first, in their order; the remote port of the
  synchroniser is registered after them and the remote GUI port of the synchroniser is
  registered last.
\<close>

theorem devMode_forwards_order:
  assumes "devMode_forwards forwards syRemotePort syRemoteGUIPort = Inr ports"
  shows "ports = map (\<lambda>f. (fwd_Local f, fwd_Remote f)) forwards @
      [(syRemotePort, ClusterPort), (syRemoteGUIPort, GUIPort)]"
proof -
  from assms obtain p1 p2 where a: "addForwards [] forwards = Inr p1"
    and b: "Add p1 syRemotePort ClusterPort = Inr p2"
    and c: "Add p2 syRemoteGUIPort GUIPort = Inr ports"
    by (auto simp: devMode_forwards_def split: sum.splits)
  from addForwards_append [OF a] have "p1 = map (\<lambda>f. (fwd_Local f, fwd_Remote f)) forwards"
    by simp
  moreover from b have "p2 = p1 @ [(syRemotePort, ClusterPort)]"
    by (auto simp: Add_def split: if_splits)
  moreover from c have "ports = p2 @ [(syRemoteGUIPort, GUIPort)]"
    by (auto simp: Add_def split: if_splits)
  ultimately show ?thesis
    by simp
qed

theorem devMode_forwards_order_witness:
  "devMode_forwards [\<lparr>fwd_Local = 8080, fwd_Remote = 3000\<rparr>] 40001 40002 =
     Inr [(8080, 3000), (40001, 22000), (40002, 8384)] \<and>
   [(8080, 3000), (40001, 22000), (40002, 8384)] =
     map (\<lambda>f. (fwd_Local f, fwd_Remote f)) [\<lparr>fwd_Local = 8080, fwd_Remote = 3000\<rparr>] @
       [(40001, ClusterPort), (40002, GUIPort)]"
proof -
  have r: "devMode_forwards [\<lparr>fwd_Local = 8080, fwd_Remote = 3000\<rparr>] 40001 40002 =
      Inr [(8080, 3000), (40001, 22000), (40002, 8384)]"
    by (simp add: devMode_forwards_def Add_def ClusterPort_def GUIPort_def)
  show ?thesis
    using r devMode_forwards_order [OF r] by (rule conjI)
qed

text \<open>
  The last port registered is the GUI port of the synchroniser, not its remote port.
\<close>

theorem devMode_forwards_last_counterexample:
  "map_sum id last (devMode_forwards [\<lparr>fwd_Local = 8080, fwd_Remote = 3000\<rparr>] 40001 40002) =
     Inr (40002, GUIPort) \<and> (40002, GUIPort) \<noteq> (40001, ClusterPort)"
  by (simp add: devMode_forwards_def Add_def ClusterPort_def GUIPort_def)

section \<open>Properties of the swap deployment\<close>

lemma cndLabels_twice: "cndLabels (cndLabels l n) n = cndLabels l n"
  by (cases l) (simp_all add: cndLabels_def)

lemma cndSelector_twice:
  "cndSelector sel n = Inr sel' \<Longrightarrow> cndSelector sel' n = Inr sel'"
  by (auto simp: cndSelector_def split: option.splits)

lemma updateContainers_names: "map c_Name (updateContainers dev cs) = map c_Name cs"
  by (induction cs) (simp_all add: updateCndContainer_def)

lemma Deployment_Inr:
  assumes "Deployment dev (Inr d) = Inr d'"
  shows "\<exists>sel. cndSelector (d_Selector d) (swap_Name dev) = Inr sel \<and>
      d' = d\<lparr>d_Name := swap_Name dev,
             d_Labels := cndLabels (d_Labels d) (swap_Name dev),
             d_Selector := sel,
             tpl_Name := swap_Name dev,
             tpl_Labels := cndLabels (tpl_Labels d) (swap_Name dev),
             Containers := updateContainers dev (Containers d) @ [syncthingContainer],
             d_Volumes := d_Volumes d @ [\<lparr>v_Name = ''cnd-sync'', v_rest = []\<rparr>]\<rparr>"
  using assms
  by (auto simp: Deployment_def Let_def createSyncthingContainer_def createSyncthingVolume_def
      split: sum.splits)

lemma Deployment_of_selector:
  assumes "cndSelector (d_Selector d) (swap_Name dev) = Inr sel"
  shows "Deployment dev (Inr d) =
      Inr (d\<lparr>d_Name := swap_Name dev,
             d_Labels := cndLabels (d_Labels d) (swap_Name dev),
             d_Selector := sel,
             tpl_Name := swap_Name dev,
             tpl_Labels := cndLabels (tpl_Labels d) (swap_Name dev),
             Containers := updateContainers dev (Containers d) @ [syncthingContainer],
             d_Volumes := d_Volumes d @ [\<lparr>v_Name = ''cnd-sync'', v_rest = []\<rparr>]\<rparr>)"
  using assms
  by (simp add: Deployment_def Let_def createSyncthingContainer_def createSyncthingVolume_def)

text \<open>
  Claim C2, as the code has it. \<open>Deployment\<close> always translates the deployment it reads
  from the file of the manifest. Translating a deployment that is already translated
  succeeds and leaves its name, its labels, its selector, the name and the labels of its
  template and its remaining fields as they are, but it is not the identity: the
  containers keep their names and get one more \<open>cnd-syncthing\<close> container at the end, and
  the volumes get one more \<open>cnd-sync\<close> volume.
\<close>

theorem Deployment_twice:
  assumes "Deployment dev (Inr d) = Inr d1"
  shows "\<exists>d2. Deployment dev (Inr d1) = Inr d2 \<and>
      d_Name d2 = d_Name d1 \<and> d_Labels d2 = d_Labels d1 \<and> d_Selector d2 = d_Selector d1 \<and>
      tpl_Name d2 = tpl_Name d1 \<and> tpl_Labels d2 = tpl_Labels d1 \<and> d_rest d2 = d_rest d1 \<and>
      map c_Name (Containers d2) = map c_Name (Containers d1) @ [''cnd-syncthing''] \<and>
      d_Volumes d2 = d_Volumes d1 @ [\<lparr>v_Name = ''cnd-sync'', v_rest = []\<rparr>]"
proof -
  from Deployment_Inr [OF assms] obtain sel
    where sel: "cndSelector (d_Selector d) (swap_Name dev) = Inr sel"
      and d1: "d_Name d1 = swap_Name dev" "d_Labels d1 = cndLabels (d_Labels d) (swap_Name dev)"
        "d_Selector d1 = sel" "tpl_Name d1 = swap_Name dev"
        "tpl_Labels d1 = cndLabels (tpl_Labels d) (swap_Name dev)"
    by auto
  have again: "cndSelector (d_Selector d1) (swap_Name dev) = Inr sel"
    using cndSelector_twice [OF sel] d1(3) by simp
  show ?thesis
    using d1
    by (simp add: Deployment_of_selector [OF again] cndLabels_twice updateContainers_names
        syncthingContainer_def)
qed

theorem Deployment_twice_witness:
  "\<exists>d1 d2.
     Deployment
       \<lparr>swap_Name = ''api'',
        Swap = \<lparr>swap_Deployment = \<lparr>dep_File = ''api.yml'', dep_Container = [],
          dep_Image = ''node:16'', dep_Command = [''tail''], dep_Args = [''-f'', ''/dev/null'']\<rparr>\<rparr>,
        Mount = \<lparr>Source = ''.'', Target = ''/src''\<rparr>\<rparr>
       (Inr \<lparr>d_Name = ''api'', d_Labels = None, d_Selector = None, tpl_Name = [],
             tpl_Labels = None,
             Containers = [\<lparr>c_Name = ''api'', c_Image = ''api:1'', c_ImagePullPolicy = [],
               c_Command = [], c_Args = [], c_WorkingDir = [], c_VolumeMounts = [],
               c_Ports = [], c_rest = []\<rparr>],
             d_Volumes = [], d_rest = []\<rparr>) = Inr d1 \<and>
     Deployment
       \<lparr>swap_Name = ''api'',
        Swap = \<lparr>swap_Deployment = \<lparr>dep_File = ''api.yml'', dep_Container = [],
          dep_Image = ''node:16'', dep_Command = [''tail''], dep_Args = [''-f'', ''/dev/null'']\<rparr>\<rparr>,
        Mount = \<lparr>Source = ''.'', Target = ''/src''\<rparr>\<rparr> (Inr d1) = Inr d2 \<and>
     d_Name d2 = d_Name d1 \<and> d_Labels d2 = d_Labels d1 \<and> d_Selector d2 = d_Selector d1 \<and>
     map c_Name (Containers d2) = map c_Name (Containers d1) @ [''cnd-syncthing''] \<and>
     d_Volumes d2 = d_Volumes d1 @ [\<lparr>v_Name = ''cnd-sync'', v_rest = []\<rparr>]"
proof -
  let ?dev = "\<lparr>swap_Name = ''api'',
        Swap = \<lparr>swap_Deployment = \<lparr>dep_File = ''api.yml'', dep_Container = [],
          dep_Image = ''node:16'', dep_Command = [''tail''], dep_Args = [''-f'', ''/dev/null'']\<rparr>\<rparr>,
        Mount = \<lparr>Source = ''.'', Target = ''/src''\<rparr>\<rparr>"
  let ?d = "\<lparr>d_Name = ''api'', d_Labels = None, d_Selector = None, tpl_Name = [],
             tpl_Labels = None,
             Containers = [\<lparr>c_Name = ''api'', c_Image = ''api:1'', c_ImagePullPolicy = [],
               c_Command = [], c_Args = [], c_WorkingDir = [], c_VolumeMounts = [],
               c_Ports = [], c_rest = []\<rparr>],
             d_Volumes = [], d_rest = []\<rparr>"
  obtain d1 where first: "Deployment ?dev (Inr ?d) = Inr d1"
    by (simp add: Deployment_def cndSelector_def Let_def)
  from Deployment_twice [OF first] first show ?thesis
    by blast
qed

text \<open>
  A deployment with the single container \<open>api\<close>: translated once it has the containers
  \<open>api\<close> and \<open>cnd-syncthing\<close> and the volume \<open>cnd-sync\<close>; translated again it has a second
  \<open>cnd-syncthing\<close> container and a second \<open>cnd-sync\<close> volume.
\<close>

theorem Deployment_twice_counterexample:
  "(case Deployment
       \<lparr>swap_Name = ''api'',
        Swap = \<lparr>swap_Deployment = \<lparr>dep_File = ''api.yml'', dep_Container = [],
          dep_Image = ''node:16'', dep_Command = [''tail''], dep_Args = [''-f'', ''/dev/null'']\<rparr>\<rparr>,
        Mount = \<lparr>Source = ''.'', Target = ''/src''\<rparr>\<rparr>
       (Inr \<lparr>d_Name = ''api'', d_Labels = None, d_Selector = None, tpl_Name = [],
             tpl_Labels = None,
             Containers = [\<lparr>c_Name = ''api'', c_Image = ''api:1'', c_ImagePullPolicy = [],
               c_Command = [], c_Args = [], c_WorkingDir = [], c_VolumeMounts = [],
               c_Ports = [], c_rest = []\<rparr>],
             d_Volumes = [], d_rest = []\<rparr>) of
      Inl err \<Rightarrow> False
    | Inr d1 \<Rightarrow>
        map c_Name (Containers d1) = [''api'', ''cnd-syncthing''] \<and>
        map v_Name (d_Volumes d1) = [''cnd-sync''] \<and>
        (case Deployment
           \<lparr>swap_Name = ''api'',
            Swap = \<lparr>swap_Deployment = \<lparr>dep_File = ''api.yml'', dep_Container = [],
              dep_Image = ''node:16'', dep_Command = [''tail''],
              dep_Args = [''-f'', ''/dev/null'']\<rparr>\<rparr>,
            Mount = \<lparr>Source = ''.'', Target = ''/src''\<rparr>\<rparr> (Inr d1) of
           Inl err \<Rightarrow> False
         | Inr d2 \<Rightarrow>
             d2 \<noteq> d1 \<and>
             map c_Name (Containers d2) = [''api'', ''cnd-syncthing'', ''cnd-syncthing''] \<and>
             map v_Name (d_Volumes d2) = [''cnd-sync'', ''cnd-sync'']))"
  by (simp add: Deployment_def cndSelector_def cndLabels_def Let_def createSyncthingContainer_def
      createSyncthingVolume_def updateCndContainer_def syncthingContainer_def)

section \<open>Properties of the writes to the state file\<close>

text \<open>
  The writes of the main line of a cycle are in order, whatever the calls into the other
  packages do.
\<close>

lemma writes_sends: "writes (map Send ms @ as) = writes as"
  by (induction ms) simp_all

lemma main_line_in_order: "in_order (writes (cycle_actions r))"
  by (auto simp: cycle_actions_def devMode_actions_def devMode_ok_def sync_failed_def
      in_order_def writes_sends)

text \<open>
  In every interleaving of the main line with the reporter goroutine, the states other
  than \<open>attaching\<close> and \<open>pulling\<close> are written in order: only a write of the reporter can go
  back.
\<close>

lemma writes_append: "writes (as @ bs) = writes as @ writes bs"
  by (induction as rule: writes.induct) simp_all

lemma writes_map_Send: "writes (map Send ms) = []"
  by (induction ms) simp_all

lemma cycle_writes_main:
  "s \<in> set (writes (cycle_actions r)) \<Longrightarrow> s \<noteq> attaching \<and> s \<noteq> pulling"
  by (auto simp: cycle_actions_def devMode_actions_def sync_failed_def writes_append writes_map_Send
      split: if_splits)

lemma step_main_writes:
  assumes "step c c'"
  shows "filter (\<lambda>s. s \<noteq> attaching \<and> s \<noteq> pulling) (snd (snd (snd c'))) @ writes (fst c') =
      filter (\<lambda>s. s \<noteq> attaching \<and> s \<noteq> pulling) (snd (snd (snd c))) @ writes (fst c) \<or>
    (\<exists>s. (s = attaching \<or> s = pulling) \<and> s \<in> set (writes (fst c)))"
  using assms by (induction rule: step.induct) auto

lemma reaches_main_writes:
  assumes "reaches c c'" and "\<forall>s \<in> set (writes (fst c)). s \<noteq> attaching \<and> s \<noteq> pulling"
  shows "filter (\<lambda>s. s \<noteq> attaching \<and> s \<noteq> pulling) (snd (snd (snd c'))) @ writes (fst c') =
      filter (\<lambda>s. s \<noteq> attaching \<and> s \<noteq> pulling) (snd (snd (snd c))) @ writes (fst c)"
  using assms
proof (induction rule: reaches.induct)
  case (here c)
  show ?case by simp
next
  case (further c c' c'')
  let ?main = "filter (\<lambda>s. s \<noteq> attaching \<and> s \<noteq> pulling)"
  have eq: "?main (snd (snd (snd c'))) @ writes (fst c') =
      ?main (snd (snd (snd c))) @ writes (fst c)"
    using further.IH further.prems by simp
  have "set (writes (fst c')) \<subseteq> set (?main (snd (snd (snd c))) @ writes (fst c))"
    using eq [symmetric] by simp
  then have "\<forall>s \<in> set (writes (fst c')). s \<noteq> attaching \<and> s \<noteq> pulling"
    using further.prems by auto
  with step_main_writes [OF further.hyps(2)] eq show ?case
    by auto
qed

lemma in_order_prefix: "in_order (xs @ ys) \<Longrightarrow> in_order xs"
  by (simp add: in_order_def sorted_append)

lemma main_line_always_in_order:
  assumes "reaches (cycle_actions r, NotStarted, False, []) (as, rep, closed, file)"
  shows "in_order (filter (\<lambda>s. s \<noteq> attaching \<and> s \<noteq> pulling) file)"
proof -
  have "filter (\<lambda>s. s \<noteq> attaching \<and> s \<noteq> pulling) file @ writes as = writes (cycle_actions r)"
    using reaches_main_writes [OF assms] cycle_writes_main [of _ r] by auto
  then have "in_order (filter (\<lambda>s. s \<noteq> attaching \<and> s \<noteq> pulling) file @ writes as)"
    using main_line_in_order [of r] by simp
  then show ?thesis
    by (rule in_order_prefix)
qed

text \<open>
  Claim C3 does not hold of the code: the writes of one cycle can go back. The reporter
  goroutine writes \<open>attaching\<close> and \<open>pulling\<close>, and nothing makes the main line wait for it.
  In a cycle where every call succeeds and \<open>MonitorDevPod\<close> sends no message, the main
  line can write \<open>activating\<close>, \<open>starting\<close> and, after \<open>devMode\<close> has returned,
  \<open>startingSync\<close> before the reporter writes \<open>attaching\<close>.
\<close>

theorem reporter_race:
  "reaches
     (cycle_actions \<lparr>checks_ok = True, deploy_ok = True, messages = [], attach_ok = True,
        startSync_ok = True, synchronize_ok = True, pod_exists = True, exit_error = False\<rparr>,
      NotStarted, False, [])
     ([Write synchronizing, Write ready], Receiving, True,
      [activating, starting, startingSync, attaching]) \<and>
   \<not> in_order [activating, starting, startingSync, attaching]"
proof -
  let ?r = "\<lparr>checks_ok = True, deploy_ok = True, messages = [], attach_ok = True,
        startSync_ok = True, synchronize_ok = True, pod_exists = True, exit_error = False\<rparr>"
  let ?rest = "[Write synchronizing, Write ready]"
  have actions: "cycle_actions ?r =
      [Write activating, Write starting, Go, Close, Write startingSync,
       Write synchronizing, Write ready]"
    by (simp add: cycle_actions_def devMode_actions_def devMode_ok_def)
  have "reaches (cycle_actions ?r, NotStarted, False, []) (cycle_actions ?r, NotStarted, False, [])"
    by (rule reaches.here)
  then have "reaches (cycle_actions ?r, NotStarted, False, [])
      (Write starting # Go # Close # Write startingSync # ?rest, NotStarted, False,
       [] @ [activating])"
    unfolding actions by (rule reaches.further) (rule step.main_write)
  then have "reaches (cycle_actions ?r, NotStarted, False, [])
      (Go # Close # Write startingSync # ?rest, NotStarted, False,
       ([] @ [activating]) @ [starting])"
    by (rule reaches.further) (rule step.main_write)
  then have "reaches (cycle_actions ?r, NotStarted, False, [])
      (Close # Write startingSync # ?rest, Started, False, ([] @ [activating]) @ [starting])"
    by (rule reaches.further) (rule step.main_go)
  then have "reaches (cycle_actions ?r, NotStarted, False, [])
      (Write startingSync # ?rest, Started, True, ([] @ [activating]) @ [starting])"
    by (rule reaches.further) (rule step.main_close)
  then have "reaches (cycle_actions ?r, NotStarted, False, [])
      (?rest, Started, True, (([] @ [activating]) @ [starting]) @ [startingSync])"
    by (rule reaches.further) (rule step.main_write)
  then have "reaches (cycle_actions ?r, NotStarted, False, [])
      (?rest, Receiving, True,
       ((([] @ [activating]) @ [starting]) @ [startingSync]) @ [attaching])"
    by (rule reaches.further) (rule step.reporter_attaching)
  then have "reaches (cycle_actions ?r, NotStarted, False, [])
      (?rest, Receiving, True, [activating, starting, startingSync, attaching])"
    by simp
  moreover have "\<not> in_order [activating, starting, startingSync, attaching]"
    by (simp add: in_order_def)
  ultimately show ?thesis
    by simp
qed

end
